theory Spec2Isabelle
  imports Main "HOL-Library.Word"
begin

unbundle bit_operations_syntax

section \<open>Byte slices over a store\<close>

text \<open>
  A Go \<^verbatim>\<open>[]byte\<close> is a header (pointer, length, capacity) into a backing array that
  other slices may share. The store is the sequence of all allocated bytes; a slice
  header names a window of it. Run-time panics are values of type \<open>panic\<close>.
\<close>

type_synonym byte = "8 word"
type_synonym uint32 = "32 word"
type_synonym store = "byte list"

datatype panic = SliceBoundsOutOfRange | IndexOutOfRange | NilPointerDereference

record slice =
  ptr :: nat
  len :: nat
  cap :: nat

text \<open>
  The invariant every slice of a running Go program satisfies: the length does not
  exceed the capacity and the capacity stays inside the allocated store.
\<close>

definition valid_slice :: "store \<Rightarrow> slice \<Rightarrow> bool" where
  "valid_slice h s \<longleftrightarrow> len s \<le> cap s \<and> ptr s + cap s \<le> length h"

text \<open>The bytes a slice shows: positions \<open>0 ..< len\<close> of its window.\<close>

definition bytes_of :: "store \<Rightarrow> slice \<Rightarrow> byte list" where
  "bytes_of h s = take (len s) (drop (ptr s) h)"

text \<open>\<^verbatim>\<open>make([]byte, n)\<close>: a fresh zeroed array of \<open>n\<close> bytes and a slice over all of it.\<close>

definition make_slice :: "store \<Rightarrow> nat \<Rightarrow> store \<times> slice" where
  "make_slice h n = (h @ replicate n 0, \<lparr>ptr = length h, len = n, cap = n\<rparr>)"

text \<open>
  \<^verbatim>\<open>s[:n]\<close>: the upper bound of a slice expression on a slice is checked against the
  capacity, not the length.
\<close>

definition slice_to :: "slice \<Rightarrow> nat \<Rightarrow> panic + slice" where
  "slice_to s n = (if n \<le> cap s then Inr (s\<lparr>len := n\<rparr>) else Inl SliceBoundsOutOfRange)"

text \<open>\<^verbatim>\<open>s[n:]\<close>: the upper bound defaults to the length, and the lower bound may not pass it.\<close>

definition slice_from :: "slice \<Rightarrow> nat \<Rightarrow> panic + slice" where
  "slice_from s n =
     (if n \<le> len s then Inr \<lparr>ptr = ptr s + n, len = len s - n, cap = cap s - n\<rparr>
      else Inl SliceBoundsOutOfRange)"

text \<open>\<^verbatim>\<open>s[i]\<close> read and \<^verbatim>\<open>s[i] = v\<close>: checked against the length.\<close>

definition index_get :: "store \<Rightarrow> slice \<Rightarrow> nat \<Rightarrow> panic + byte" where
  "index_get h s i = (if i < len s then Inr (h ! (ptr s + i)) else Inl IndexOutOfRange)"

definition index_set :: "store \<Rightarrow> slice \<Rightarrow> nat \<Rightarrow> byte \<Rightarrow> panic + store" where
  "index_set h s i v = (if i < len s then Inr (h[ptr s + i := v]) else Inl IndexOutOfRange)"

section \<open>The little-endian byte order of \<^verbatim>\<open>encoding/binary\<close>\<close>

text \<open>
  \<^verbatim>\<open>endianness = binary.LittleEndian\<close>. The two methods of the standard library that the
  demo calls, statement by statement:
  \<^verbatim>\<open>
  func (littleEndian) PutUint32(b []byte, v uint32) {
      _ = b[3]
      b[0] = byte(v); b[1] = byte(v >> 8); b[2] = byte(v >> 16); b[3] = byte(v >> 24)
  }
  func (littleEndian) Uint32(b []byte) uint32 {
      _ = b[3]
      return uint32(b[0]) | uint32(b[1])<<8 | uint32(b[2])<<16 | uint32(b[3])<<24
  }
  \<close>
\<close>

definition PutUint32 :: "store \<Rightarrow> slice \<Rightarrow> uint32 \<Rightarrow> panic + store" where
  "PutUint32 h b v =
     (case index_get h b 3 of Inl e \<Rightarrow> Inl e | Inr _ \<Rightarrow>
     (case index_set h b 0 (ucast v) of Inl e \<Rightarrow> Inl e | Inr h0 \<Rightarrow>
     (case index_set h0 b 1 (ucast (drop_bit 8 v)) of Inl e \<Rightarrow> Inl e | Inr h1 \<Rightarrow>
     (case index_set h1 b 2 (ucast (drop_bit 16 v)) of Inl e \<Rightarrow> Inl e | Inr h2 \<Rightarrow>
      index_set h2 b 3 (ucast (drop_bit 24 v))))))"

definition Uint32 :: "store \<Rightarrow> slice \<Rightarrow> panic + uint32" where
  "Uint32 h b =
     (case index_get h b 3 of Inl e \<Rightarrow> Inl e | Inr b3 \<Rightarrow>
     (case index_get h b 0 of Inl e \<Rightarrow> Inl e | Inr b0 \<Rightarrow>
     (case index_get h b 1 of Inl e \<Rightarrow> Inl e | Inr b1 \<Rightarrow>
     (case index_get h b 2 of Inl e \<Rightarrow> Inl e | Inr b2 \<Rightarrow>
      Inr (ucast b0 OR push_bit 8 (ucast b1) OR push_bit 16 (ucast b2)
             OR push_bit 24 (ucast b3))))))"

section \<open>Messages: \<^verbatim>\<open>type message []byte\<close>\<close>

text \<open>
  \<^verbatim>\<open>setSessionID\<close> writes through the slice into the shared backing array, so the model
  returns the updated store; the slice header itself (a value receiver) is unchanged.
\<close>

definition setSessionID :: "store \<Rightarrow> slice \<Rightarrow> uint32 \<Rightarrow> panic + store" where
  "setSessionID h msg id' =
     (case slice_to msg 4 of Inl e \<Rightarrow> Inl e | Inr b \<Rightarrow> PutUint32 h b id')"

definition getSessionID :: "store \<Rightarrow> slice \<Rightarrow> panic + uint32" where
  "getSessionID h msg =
     (case slice_to msg 4 of Inl e \<Rightarrow> Inl e | Inr b \<Rightarrow> Uint32 h b)"

definition getData :: "slice \<Rightarrow> panic + slice" where
  "getData msg = slice_from msg 4"

definition idToBytes :: "store \<Rightarrow> uint32 \<Rightarrow> panic + store \<times> slice" where
  "idToBytes h id' =
     (case make_slice h 4 of (h0, b) \<Rightarrow>
     (case slice_to b 4 of Inl e \<Rightarrow> Inl e | Inr b4 \<Rightarrow>
     (case PutUint32 h0 b4 id' of Inl e \<Rightarrow> Inl e | Inr h1 \<Rightarrow> Inr (h1, b))))"

section \<open>The demo's entry point\<close>

text \<open>
  The command-line flags after \<^verbatim>\<open>flag.Parse()\<close>, with the defaults the source declares.
\<close>

record flags =
  "help" :: bool
  mode :: string
  waddellAddr :: string
  debug :: bool

definition default_flags :: flags where
  "default_flags =
     \<lparr>help = False, mode = ''client'', waddellAddr = ''128.199.130.61:443'', debug = False\<rparr>"

datatype writer = Stderr

text \<open>The package-level variables \<^verbatim>\<open>wc\<close> and \<^verbatim>\<open>debugOut\<close> as the two roles find them.\<close>

record 'wc globals =
  wc :: 'wc
  debugOut :: "writer option"

text \<open>
  How \<^verbatim>\<open>main\<close> ends: it prints the usage and returns, \<^verbatim>\<open>log.Fatalf\<close> ends the process
  with a message, or control passes to \<^verbatim>\<open>runServer\<close> or \<^verbatim>\<open>runClient\<close>.
\<close>

datatype 'wc outcome = Usage | Fatal string | RunServer "'wc globals" | RunClient "'wc globals"

text \<open>
  \<^verbatim>\<open>net.Dial\<close> and \<^verbatim>\<open>waddell.Connect\<close> are the environment: each returns a value and an
  error, the error being \<open>None\<close> for Go's \<^verbatim>\<open>nil\<close>.
\<close>

definition connectToWaddell ::
  "(string \<Rightarrow> string \<Rightarrow> 'conn \<times> 'err option) \<Rightarrow> ('conn \<Rightarrow> 'wc \<times> 'err option) \<Rightarrow> flags
     \<Rightarrow> string + 'wc" where
  "connectToWaddell dial connect fl =
     (case dial ''tcp'' (waddellAddr fl) of (conn, err) \<Rightarrow>
        if err \<noteq> None then Inl ''Unable to dial waddell''
        else (case connect conn of (c, err') \<Rightarrow>
          if err' \<noteq> None then Inl ''Unable to connect to waddell'' else Inr c))"

definition main ::
  "(string \<Rightarrow> string \<Rightarrow> 'conn \<times> 'err option) \<Rightarrow> ('conn \<Rightarrow> 'wc \<times> 'err option) \<Rightarrow> flags
     \<Rightarrow> 'wc outcome" where
  "main dial connect fl =
     (if help fl then Usage
      else let out = (if debug fl then Some Stderr else None) in
        (case connectToWaddell dial connect fl of
           Inl m \<Rightarrow> Fatal m
         | Inr c \<Rightarrow>
             if ''server'' = mode fl then RunServer \<lparr>wc = c, debugOut = out\<rparr>
             else RunClient \<lparr>wc = c, debugOut = out\<rparr>))"

section \<open>From a five-tuple to UDP addresses\<close>

text \<open>
  The declaration of \<^verbatim>\<open>natty.FiveTuple\<close> is not among the source files; these are the
  three fields that \<^verbatim>\<open>udpAddresses\<close> and the tests read. The constant \<^verbatim>\<open>natty.UDP\<close> is a
  parameter of the model, and so is \<^verbatim>\<open>net.ResolveUDPAddr\<close>, which returns an address
  and an error.
\<close>

record FiveTuple =
  Local :: string
  Remote :: string
  Proto :: string

datatype udp_error = ProtoNotUDP string | UnresolvedLocal string | UnresolvedRemote string

text \<open>
  The argument is a pointer: \<open>None\<close> is \<^verbatim>\<open>nil\<close>, whose field access panics. The demo
  and the older test file hold the same function, word for word.
\<close>

definition udpAddresses ::
  "(string \<Rightarrow> string \<Rightarrow> 'addr option \<times> 'err option) \<Rightarrow> string \<Rightarrow> FiveTuple option
     \<Rightarrow> panic + 'addr option \<times> 'addr option \<times> udp_error option" where
  "udpAddresses ResolveUDPAddr UDP ft =
     (case ft of
        None \<Rightarrow> Inl NilPointerDereference
      | Some t \<Rightarrow>
          if Proto t \<noteq> UDP then Inr (None, None, Some (ProtoNotUDP (Proto t)))
          else (case ResolveUDPAddr ''udp'' (Local t) of (local, err) \<Rightarrow>
            if err \<noteq> None then Inr (None, None, Some (UnresolvedLocal (Local t)))
            else (case ResolveUDPAddr ''udp'' (Remote t) of (remote, err') \<Rightarrow>
              if err' \<noteq> None then Inr (None, None, Some (UnresolvedRemote (Remote t)))
              else Inr (local, remote, None))))"

section \<open>The Session\<close>

text \<open>
  Modelled from the spec: the Session (natty's \<^verbatim>\<open>Traversal\<close>, with \<^verbatim>\<open>FiveTuple\<close>,
  \<^verbatim>\<open>FiveTupleTimeout\<close>, \<^verbatim>\<open>NextMsgOut\<close>, \<^verbatim>\<open>MsgIn\<close> and \<^verbatim>\<open>Close\<close>) is not among the source
  files; only the tests that call it are. The fields are those of the spec's data model,
  the operations those of its Session component, and the negotiation engine is the
  capability of its external interfaces: next outbound message, accept inbound message,
  await resolution until a deadline (\<open>None\<close> for no deadline). What the engine does in
  the background is not the Session's business: the model lets \<open>awaitResolution\<close> answer
  anything at any call.
\<close>

datatype role = Initiator | Responder

datatype session_error = TimeoutError | SessionClosed | NegotiationFailed

datatype resolution = Pending | Resolved FiveTuple | EngineFailed

record 'e engine_ops =
  nextOutbound :: "'e \<Rightarrow> (string \<times> bool) \<times> 'e"
  acceptInbound :: "string \<Rightarrow> 'e \<Rightarrow> 'e"
  awaitResolution :: "nat option \<Rightarrow> 'e \<Rightarrow> resolution"

record 'e Session =
  role :: role
  engine :: 'e
  outboundExhausted :: bool
  resolved :: "FiveTuple option"
  closed :: bool

text \<open>
  Modelled from the spec: \<^verbatim>\<open>produceNext\<close> returns the next outbound message, or
  \<open>done\<close> with an empty payload once the engine has none, and keeps returning \<open>done\<close>
  afterwards; on a closed Session it is a no-op.
\<close>

definition produceNext :: "'e engine_ops \<Rightarrow> 'e Session \<Rightarrow> (string \<times> bool) \<times> 'e Session" where
  "produceNext eng s =
     (if closed s \<or> outboundExhausted s then (([], True), s)
      else (case nextOutbound eng (engine s) of ((payload, done), e') \<Rightarrow>
        if done then (([], True), s\<lparr>engine := e', outboundExhausted := True\<rparr>)
        else ((payload, False), s\<lparr>engine := e'\<rparr>)))"

text \<open>Modelled from the spec: \<^verbatim>\<open>consume\<close> feeds one inbound message to the engine.\<close>

definition consume :: "'e engine_ops \<Rightarrow> string \<Rightarrow> 'e Session \<Rightarrow> 'e Session" where
  "consume eng payload s =
     (if closed s then s else s\<lparr>engine := acceptInbound eng payload (engine s)\<rparr>)"

text \<open>
  Modelled from the spec: \<^verbatim>\<open>resolveWithTimeout\<close> fails fast on a closed Session, returns
  the memoized five-tuple if there is one, and otherwise waits for the engine until the
  deadline. The cell \<open>resolved\<close> is written only where it is empty. Expiry leaves the
  Session as it was.
\<close>

definition resolveWithTimeout ::
  "'e engine_ops \<Rightarrow> nat \<Rightarrow> 'e Session \<Rightarrow> (session_error + FiveTuple) \<times> 'e Session" where
  "resolveWithTimeout eng d s =
     (if closed s then (Inl SessionClosed, s)
      else (case resolved s of
        Some ft \<Rightarrow> (Inr ft, s)
      | None \<Rightarrow>
          (case awaitResolution eng (Some d) (engine s) of
             Pending \<Rightarrow> (Inl TimeoutError, s)
           | EngineFailed \<Rightarrow> (Inl NegotiationFailed, s)
           | Resolved ft \<Rightarrow> (Inr ft, s\<lparr>resolved := Some ft\<rparr>))))"

text \<open>
  Modelled from the spec: \<^verbatim>\<open>resolve\<close> is the same without a deadline. An engine that
  stays pending blocks the caller for ever: the result \<open>None\<close>.
\<close>

definition resolve ::
  "'e engine_ops \<Rightarrow> 'e Session \<Rightarrow> ((session_error + FiveTuple) \<times> 'e Session) option" where
  "resolve eng s =
     (if closed s then Some (Inl SessionClosed, s)
      else (case resolved s of
        Some ft \<Rightarrow> Some (Inr ft, s)
      | None \<Rightarrow>
          (case awaitResolution eng None (engine s) of
             Pending \<Rightarrow> None
           | EngineFailed \<Rightarrow> Some (Inl NegotiationFailed, s)
           | Resolved ft \<Rightarrow> Some (Inr ft, s\<lparr>resolved := Some ft\<rparr>))))"

text \<open>Modelled from the spec: \<^verbatim>\<open>close\<close> is idempotent and allowed in every state.\<close>

definition close :: "'e Session \<Rightarrow> 'e Session" where
  "close s = s\<lparr>closed := True\<rparr>"

text \<open>
  Everything a caller can do to a Session, and the Session after a sequence of such
  calls. A \<^verbatim>\<open>resolve\<close> that blocks leaves the Session as it found it.
\<close>

datatype session_op =
  ProduceNext | Consume string | Resolve | ResolveWithTimeout nat | Close

fun apply_session_op :: "'e engine_ops \<Rightarrow> session_op \<Rightarrow> 'e Session \<Rightarrow> 'e Session" where
  "apply_session_op eng ProduceNext s = snd (produceNext eng s)"
| "apply_session_op eng (Consume payload) s = consume eng payload s"
| "apply_session_op eng Resolve s = (case resolve eng s of None \<Rightarrow> s | Some (_, s') \<Rightarrow> s')"
| "apply_session_op eng (ResolveWithTimeout d) s = snd (resolveWithTimeout eng d s)"
| "apply_session_op eng Close s = close s"

fun run_session :: "'e engine_ops \<Rightarrow> session_op list \<Rightarrow> 'e Session \<Rightarrow> 'e Session" where
  "run_session eng [] s = s"
| "run_session eng (x # xs) s = run_session eng xs (apply_session_op eng x s)"

text \<open>
  The operations by which negotiation messages are exchanged: producing the next
  outbound message and consuming an inbound one.
\<close>

fun is_message_op :: "session_op \<Rightarrow> bool" where
  "is_message_op ProduceNext = True"
| "is_message_op (Consume payload) = True"
| "is_message_op Resolve = False"
| "is_message_op (ResolveWithTimeout d) = False"
| "is_message_op Close = False"

text \<open>
  An engine to run the Session on: its state counts the inbound messages; it always
  has an outbound message, resolves once a message has come in, and reports another
  five-tuple from the third message on.
\<close>

definition counting_engine :: "nat engine_ops" where
  "counting_engine =
     \<lparr>nextOutbound = (\<lambda>n. ((''offer'', False), n)),
      acceptInbound = (\<lambda>payload n. Suc n),
      awaitResolution = (\<lambda>d n.
        if n = 0 then Pending
        else if n < 3
          then Resolved \<lparr>Local = ''10.0.0.1:5000'', Remote = ''10.0.0.2:6000'', Proto = ''udp''\<rparr>
          else Resolved \<lparr>Local = ''10.0.0.1:5001'', Remote = ''10.0.0.2:6001'', Proto = ''udp''\<rparr>)\<rparr>"

section \<open>Four bytes and a 32-bit word\<close>

lemma le_bytes_word:
  fixes v :: uint32
  shows "ucast (ucast v :: byte) OR push_bit 8 (ucast (ucast (drop_bit 8 v) :: byte))
     OR push_bit 16 (ucast (ucast (drop_bit 16 v) :: byte))
     OR push_bit 24 (ucast (ucast (drop_bit 24 v) :: byte)) = v"
    (is "?w = v")
proof (rule bit_word_eqI)
  fix n :: nat
  assume n: "n < LENGTH(32)"
  consider "n < 8" | "8 \<le> n" "n < 16" | "16 \<le> n" "n < 24" | "24 \<le> n" "n < 32"
    using n by fastforce
  then show "bit ?w n = bit v n"
    by cases (auto simp: bit_simps)
qed

lemma unat_byte_of:
  fixes v :: uint32
  shows "unat (ucast (drop_bit k v) :: byte) = unat v div 2 ^ k mod 256"
proof -
  have "unat (ucast (drop_bit k v) :: byte) = unat (drop_bit k v) mod 256"
    by (simp only: unsigned_ucast_eq take_bit_eq_mod) simp
  also have "unat (drop_bit k v) = unat v div 2 ^ k"
    unfolding unat_drop_bit_eq by (rule drop_bit_eq_div)
  finally show ?thesis .
qed

lemma base256_digits:
  fixes x :: nat
  assumes "x < 4294967296"
  shows "x = x mod 256 + 256 * (x div 256 mod 256) + 65536 * (x div 65536 mod 256)
           + 16777216 * (x div 16777216 mod 256)"
proof -
  have a: "x div 65536 = x div 256 div 256" "x div 16777216 = x div 256 div 256 div 256"
    by (simp_all add: div_mult2_eq [symmetric])
  have "x div 256 div 256 div 256 < 256"
    using assms by (simp add: div_mult2_eq [symmetric] less_mult_imp_div_less)
  then have d3: "x div 256 div 256 div 256 mod 256 = x div 256 div 256 div 256"
    by simp
  have s: "y = y mod 256 + 256 * (y div 256)" for y :: nat
    by simp
  show ?thesis
    unfolding a d3 using s [of x] s [of "x div 256"] s [of "x div 256 div 256"] by linarith
qed

lemma base256_digit_of:
  fixes a b c d :: nat
  assumes "a < 256" "b < 256" "c < 256" "d < 256"
  defines "n \<equiv> a + 256 * b + 65536 * c + 16777216 * d"
  shows "n mod 256 = a" "n div 256 mod 256 = b" "n div 65536 mod 256 = c"
        "n div 16777216 mod 256 = d" "n < 4294967296"
proof -
  have s: "(x + 256 * m) mod 256 = x" "(x + 256 * m) div 256 = m" if "x < 256" for x m :: nat
    using that by simp_all
  have n0: "n = a + 256 * (b + 256 * (c + 256 * d))"
    by (simp add: n_def)
  show "n mod 256 = a"
    unfolding n0 by (rule s(1) [OF assms(1)])
  have n1: "n div 256 = b + 256 * (c + 256 * d)"
    unfolding n0 by (rule s(2) [OF assms(1)])
  show "n div 256 mod 256 = b"
    unfolding n1 by (rule s(1) [OF assms(2)])
  have n2: "n div 256 div 256 = c + 256 * d"
    unfolding n1 by (rule s(2) [OF assms(2)])
  have e2: "n div 65536 = n div 256 div 256"
    by (simp add: div_mult2_eq [symmetric])
  show "n div 65536 mod 256 = c"
    unfolding e2 n2 by (rule s(1) [OF assms(3)])
  have n3: "n div 256 div 256 div 256 = d"
    unfolding n2 using s(2) [OF assms(3), of d] by simp
  have e3: "n div 16777216 = n div 256 div 256 div 256"
    by (simp add: div_mult2_eq [symmetric])
  show "n div 16777216 mod 256 = d"
    unfolding e3 n3 using assms(4) by simp
  show "n < 4294967296"
    using assms(1-4) by (simp add: n_def)
qed

lemma unat_le_bytes:
  fixes v :: uint32
  shows "unat v = unat (ucast v :: byte) + 256 * unat (ucast (drop_bit 8 v) :: byte)
           + 65536 * unat (ucast (drop_bit 16 v) :: byte)
           + 16777216 * unat (ucast (drop_bit 24 v) :: byte)"
proof -
  have "unat v < 4294967296"
    using unsigned_less [of v, where 'a = nat] by simp
  from base256_digits [OF this] show ?thesis
    using unat_byte_of [of 0 v] unat_byte_of [of 8 v] unat_byte_of [of 16 v] unat_byte_of [of 24 v]
    by simp
qed

lemma le_word_of_bytes:
  fixes b0 b1 b2 b3 :: byte
  shows "unat ((ucast b0 :: uint32) OR push_bit 8 (ucast b1) OR push_bit 16 (ucast b2)
             OR push_bit 24 (ucast b3))
         = unat b0 + 256 * unat b1 + 65536 * unat b2 + 16777216 * unat b3"
proof -
  define n where "n = unat b0 + 256 * unat b1 + 65536 * unat b2 + 16777216 * unat b3"
  have b: "unat b0 < 256" "unat b1 < 256" "unat b2 < 256" "unat b3 < 256"
    using unsigned_less [of b0, where 'a = nat] unsigned_less [of b1, where 'a = nat]
      unsigned_less [of b2, where 'a = nat] unsigned_less [of b3, where 'a = nat] by simp_all
  note dg = base256_digit_of [OF b, folded n_def]
  define w :: uint32 where "w = of_nat n"
  have uw: "unat w = n"
    using dg(5) by (simp add: w_def unat_of_nat)
  have "unat (ucast w :: byte) = unat b0" "unat (ucast (drop_bit 8 w) :: byte) = unat b1"
       "unat (ucast (drop_bit 16 w) :: byte) = unat b2" "unat (ucast (drop_bit 24 w) :: byte) = unat b3"
    using unat_byte_of [of 0 w] unat_byte_of [of 8 w] unat_byte_of [of 16 w] unat_byte_of [of 24 w]
    by (simp_all add: uw dg)
  then have "(ucast w :: byte) = b0" "(ucast (drop_bit 8 w) :: byte) = b1"
       "(ucast (drop_bit 16 w) :: byte) = b2" "(ucast (drop_bit 24 w) :: byte) = b3"
    by (simp_all add: word_unat_eq_iff)
  then show ?thesis
    using le_bytes_word [of w] uw by (simp add: n_def)
qed

section \<open>What the framing functions compute\<close>

lemma PutUint32_ok:
  "4 \<le> len b \<Longrightarrow>
   PutUint32 h b v = Inr (h[ptr b := ucast v, ptr b + 1 := ucast (drop_bit 8 v),
                            ptr b + 2 := ucast (drop_bit 16 v), ptr b + 3 := ucast (drop_bit 24 v)])"
  by (simp add: PutUint32_def index_get_def index_set_def)

lemma Uint32_ok:
  "4 \<le> len b \<Longrightarrow>
   Uint32 h b = Inr (ucast (h ! ptr b) OR push_bit 8 (ucast (h ! (ptr b + 1)))
                      OR push_bit 16 (ucast (h ! (ptr b + 2))) OR push_bit 24 (ucast (h ! (ptr b + 3))))"
  by (simp add: Uint32_def index_get_def)

lemma setSessionID_ok:
  "4 \<le> cap msg \<Longrightarrow>
   setSessionID h msg v = Inr (h[ptr msg := ucast v, ptr msg + 1 := ucast (drop_bit 8 v),
                            ptr msg + 2 := ucast (drop_bit 16 v), ptr msg + 3 := ucast (drop_bit 24 v)])"
  by (simp add: setSessionID_def slice_to_def PutUint32_ok)

lemma getSessionID_ok:
  "4 \<le> cap msg \<Longrightarrow>
   getSessionID h msg = Inr (ucast (h ! ptr msg) OR push_bit 8 (ucast (h ! (ptr msg + 1)))
                      OR push_bit 16 (ucast (h ! (ptr msg + 2))) OR push_bit 24 (ucast (h ! (ptr msg + 3))))"
  by (simp add: getSessionID_def slice_to_def Uint32_ok)

lemma getSessionID_short:
  "cap msg < 4 \<Longrightarrow> getSessionID h msg = Inl SliceBoundsOutOfRange"
  by (simp add: getSessionID_def slice_to_def)

lemma getSessionID_setSessionID:
  assumes "4 \<le> cap msg" "ptr msg + cap msg \<le> length h" "setSessionID h msg v = Inr h'"
  shows "getSessionID h' msg = Inr v"
proof -
  have h': "h' = h[ptr msg := ucast v, ptr msg + 1 := ucast (drop_bit 8 v),
                  ptr msg + 2 := ucast (drop_bit 16 v), ptr msg + 3 := ucast (drop_bit 24 v)]"
    using assms by (simp add: setSessionID_ok)
  have "h' ! ptr msg = ucast v" "h' ! (ptr msg + 1) = ucast (drop_bit 8 v)"
       "h' ! (ptr msg + 2) = ucast (drop_bit 16 v)" "h' ! (ptr msg + 3) = ucast (drop_bit 24 v)"
    using assms(1,2) by (simp_all add: h')
  then show ?thesis
    using assms(1) by (simp add: getSessionID_ok le_bytes_word)
qed

lemma len_bytes_of: "valid_slice h s \<Longrightarrow> length (bytes_of h s) = len s"
  by (auto simp: valid_slice_def bytes_of_def)

lemma bytes_of_getData:
  assumes "4 \<le> cap msg" "setSessionID h msg v = Inr h'" "getData msg = Inr d"
  shows "bytes_of h' d = drop 4 (bytes_of h msg)"
proof -
  have h': "h' = h[ptr msg := ucast v, ptr msg + 1 := ucast (drop_bit 8 v),
                  ptr msg + 2 := ucast (drop_bit 16 v), ptr msg + 3 := ucast (drop_bit 24 v)]"
    using assms by (simp add: setSessionID_ok)
  have d: "d = \<lparr>ptr = ptr msg + 4, len = len msg - 4, cap = cap msg - 4\<rparr>"
    using assms(3) by (simp add: getData_def slice_from_def split: if_splits)
  have "drop (ptr msg + 4) h' = drop (ptr msg + 4) h"
    by (simp add: h' drop_update_cancel)
  then show ?thesis
    by (simp add: bytes_of_def d drop_take add.commute)
qed

lemma replicate4: "replicate 4 x = [x, x, x, x]"
  by (simp add: numeral_eq_Suc)

lemma idToBytes_ok:
  "idToBytes h v = Inr (h @ [ucast v, ucast (drop_bit 8 v), ucast (drop_bit 16 v),
                             ucast (drop_bit 24 v)],
                        \<lparr>ptr = length h, len = 4, cap = 4\<rparr>)"
proof -
  have "(h @ [0, 0, 0, 0])[length h := a, length h + 1 := b, length h + 2 := c, length h + 3 := d]
          = h @ [a, b, c, d]" for a b c d :: byte
    by (simp add: list_update_append numeral_eq_Suc)
  then show ?thesis
    by (simp add: idToBytes_def make_slice_def slice_to_def PutUint32_ok replicate4)
qed

section \<open>The framing claims\<close>

text \<open>
  Claim C1. A frame is a message whose first four bytes are the header and whose
  remaining bytes are the payload. For every session id and every payload: after
  \<^verbatim>\<open>setSessionID\<close> has written the id into the frame, \<^verbatim>\<open>getSessionID\<close> returns that id
  and \<^verbatim>\<open>getData\<close> returns a slice showing exactly the payload bytes.
\<close>

theorem frame_roundtrip:
  assumes "valid_slice h msg" and "bytes_of h msg = hdr @ payload" and "length hdr = 4"
  shows "\<exists>h' d. setSessionID h msg sid = Inr h' \<and> getSessionID h' msg = Inr sid \<and>
                getData msg = Inr d \<and> bytes_of h' d = payload"
proof -
  have l: "len msg = 4 + length payload"
    using assms len_bytes_of [of h msg] by simp
  then have c: "4 \<le> cap msg" "ptr msg + cap msg \<le> length h"
    using assms(1) by (simp_all add: valid_slice_def)
  obtain h' where h': "setSessionID h msg sid = Inr h'"
    using c(1) by (simp add: setSessionID_ok)
  obtain d where d: "getData msg = Inr d"
    using l by (simp add: getData_def slice_from_def)
  have "bytes_of h' d = payload"
    using bytes_of_getData [OF c(1) h' d] assms(2,3) by simp
  with h' d getSessionID_setSessionID [OF c h'] show ?thesis by blast
qed

theorem frame_roundtrip_witness:
  "valid_slice [9, 9, 9, 9, 5, 6] \<lparr>ptr = 0, len = 6, cap = 6\<rparr> \<and>
   bytes_of [9, 9, 9, 9, 5, 6] \<lparr>ptr = 0, len = 6, cap = 6\<rparr> = [9, 9, 9, 9] @ [5, 6] \<and>
   length [9, 9, 9, 9 :: byte] = 4 \<and>
   (\<exists>h' d. setSessionID [9, 9, 9, 9, 5, 6] \<lparr>ptr = 0, len = 6, cap = 6\<rparr> 0xAABBCCDD = Inr h' \<and>
           getSessionID h' \<lparr>ptr = 0, len = 6, cap = 6\<rparr> = Inr 0xAABBCCDD \<and>
           getData \<lparr>ptr = 0, len = 6, cap = 6\<rparr> = Inr d \<and> bytes_of h' d = [5, 6])"
proof -
  have v: "valid_slice [9, 9, 9, 9, 5, 6] \<lparr>ptr = 0, len = 6, cap = 6\<rparr>"
    by (simp add: valid_slice_def)
  have b: "bytes_of [9, 9, 9, 9, 5, 6] \<lparr>ptr = 0, len = 6, cap = 6\<rparr> = [9, 9, 9, 9] @ [5, 6]"
    by (simp add: bytes_of_def)
  have l: "length [9, 9, 9, 9 :: byte] = 4"
    by simp
  from frame_roundtrip [OF v b l, of "0xAABBCCDD"] v b l show ?thesis
    by blast
qed

text \<open>
  Claim C2, as stated: decoding a message shorter than four bytes fails with a
  MalformedMessage error, without crashing and without returning a session id. The code
  has no such error: on the three-byte message below \<^verbatim>\<open>getData\<close> and \<^verbatim>\<open>getSessionID\<close>
  panic, and where the backing array has a fourth byte \<^verbatim>\<open>getSessionID\<close> returns an id.
\<close>

theorem short_message_counterexample:
  "getData \<lparr>ptr = 0, len = 3, cap = 3\<rparr> = Inl SliceBoundsOutOfRange \<and>
   getSessionID [1, 2, 3] \<lparr>ptr = 0, len = 3, cap = 3\<rparr> = Inl SliceBoundsOutOfRange \<and>
   getSessionID [1, 2, 3, 4] \<lparr>ptr = 0, len = 3, cap = 4\<rparr> = Inr 0x04030201"
  by (simp add: getData_def slice_from_def getSessionID_short getSessionID_ok)

text \<open>
  Claim C2, amended. For every message shorter than four bytes \<^verbatim>\<open>getData\<close> panics with
  a slice-bounds run-time error; \<^verbatim>\<open>getSessionID\<close> panics in the same way when the
  capacity is below four, and otherwise returns the little-endian value of the first
  four bytes of the backing array.
\<close>

theorem short_message_panics:
  assumes "len msg < 4"
  shows "getData msg = Inl SliceBoundsOutOfRange \<and>
         (cap msg < 4 \<longrightarrow> getSessionID h msg = Inl SliceBoundsOutOfRange) \<and>
         (4 \<le> cap msg \<longrightarrow>
            (\<exists>w. getSessionID h msg = Inr w \<and>
                 unat w = unat (h ! ptr msg) + 256 * unat (h ! (ptr msg + 1))
                            + 65536 * unat (h ! (ptr msg + 2))
                            + 16777216 * unat (h ! (ptr msg + 3))))"
  using assms
  by (simp add: getData_def slice_from_def getSessionID_short getSessionID_ok le_word_of_bytes)

theorem short_message_panics_witness:
  "(len \<lparr>ptr = 0, len = 3, cap = 3\<rparr> < 4 \<and> cap \<lparr>ptr = 0, len = 3, cap = 3\<rparr> < 4 \<and>
    getData \<lparr>ptr = 0, len = 3, cap = 3\<rparr> = Inl SliceBoundsOutOfRange \<and>
    getSessionID [1, 2, 3] \<lparr>ptr = 0, len = 3, cap = 3\<rparr> = Inl SliceBoundsOutOfRange) \<and>
   (len \<lparr>ptr = 0, len = 3, cap = 4\<rparr> < 4 \<and> 4 \<le> cap \<lparr>ptr = 0, len = 3, cap = 4\<rparr> \<and>
    getData \<lparr>ptr = 0, len = 3, cap = 4\<rparr> = Inl SliceBoundsOutOfRange \<and>
    (\<exists>w. getSessionID [1, 2, 3, 4] \<lparr>ptr = 0, len = 3, cap = 4\<rparr> = Inr w \<and> unat w = 67305985))"
  using short_message_panics [of "\<lparr>ptr = 0, len = 3, cap = 3\<rparr>" "[1, 2, 3]"]
    short_message_panics [of "\<lparr>ptr = 0, len = 3, cap = 4\<rparr>" "[1, 2, 3, 4]"]
  by simp

text \<open>
  Claim C3. For every id, \<^verbatim>\<open>idToBytes\<close> returns a slice of length exactly four, inside
  the store; read as a frame it has its four-byte header and an empty payload.
\<close>

theorem idToBytes_header_length:
  "\<exists>h' b d. idToBytes h sid = Inr (h', b) \<and> len b = 4 \<and> length (bytes_of h' b) = 4 \<and>
            valid_slice h' b \<and> getData b = Inr d \<and> bytes_of h' d = []"
  by (simp add: idToBytes_ok bytes_of_def valid_slice_def getData_def slice_from_def)

text \<open>
  Claim C9. On a message of length at least four \<^verbatim>\<open>setSessionID\<close> succeeds and changes
  nothing but the first four bytes of the message: the store keeps its size, every
  index from four on reads as before, every store cell outside the four header cells
  is unchanged, and so the payload is what it was.
\<close>

theorem setSessionID_frame:
  assumes "valid_slice h msg" and "4 \<le> len msg"
  shows "\<exists>h'. setSessionID h msg sid = Inr h' \<and> length h' = length h \<and>
              (\<forall>i. 4 \<le> i \<and> i < len msg \<longrightarrow> index_get h' msg i = index_get h msg i) \<and>
              (\<forall>a. a < ptr msg \<or> ptr msg + 4 \<le> a \<longrightarrow> h' ! a = h ! a) \<and>
              drop 4 (bytes_of h' msg) = drop 4 (bytes_of h msg)"
proof -
  have c: "4 \<le> cap msg"
    using assms by (simp add: valid_slice_def)
  define h' where "h' = h[ptr msg := ucast sid, ptr msg + 1 := ucast (drop_bit 8 sid),
                  ptr msg + 2 := ucast (drop_bit 16 sid), ptr msg + 3 := ucast (drop_bit 24 sid)]"
  have s: "setSessionID h msg sid = Inr h'"
    using c by (simp add: setSessionID_ok h'_def)
  have l: "length h' = length h"
    by (simp add: h'_def)
  have n: "h' ! a = h ! a" if "a < ptr msg \<or> ptr msg + 4 \<le> a" for a
    using that by (auto simp: h'_def)
  have g: "index_get h' msg i = index_get h msg i" if "4 \<le> i" for i
    using that n [of "ptr msg + i"] by (simp add: index_get_def)
  have "drop (ptr msg + 4) h' = drop (ptr msg + 4) h"
    by (simp add: h'_def drop_update_cancel)
  then have d: "drop 4 (bytes_of h' msg) = drop 4 (bytes_of h msg)"
    by (simp add: bytes_of_def drop_take add.commute)
  from s l n g d show ?thesis by blast
qed

theorem setSessionID_frame_witness:
  "valid_slice [8, 9, 9, 9, 9, 5, 6, 7] \<lparr>ptr = 1, len = 6, cap = 7\<rparr> \<and>
   4 \<le> len \<lparr>ptr = 1, len = 6, cap = 7\<rparr> \<and>
   (\<exists>h'. setSessionID [8, 9, 9, 9, 9, 5, 6, 7] \<lparr>ptr = 1, len = 6, cap = 7\<rparr> 1 = Inr h' \<and>
         length h' = length [8, 9, 9, 9, 9, 5, 6, 7 :: byte] \<and>
         (\<forall>i. 4 \<le> i \<and> i < len \<lparr>ptr = 1, len = 6, cap = 7\<rparr> \<longrightarrow>
            index_get h' \<lparr>ptr = 1, len = 6, cap = 7\<rparr> i
              = index_get [8, 9, 9, 9, 9, 5, 6, 7] \<lparr>ptr = 1, len = 6, cap = 7\<rparr> i) \<and>
         (\<forall>a. a < ptr \<lparr>ptr = 1, len = 6, cap = 7\<rparr> \<or> ptr \<lparr>ptr = 1, len = 6, cap = 7\<rparr> + 4 \<le> a
            \<longrightarrow> h' ! a = [8, 9, 9, 9, 9, 5, 6, 7] ! a) \<and>
         drop 4 (bytes_of h' \<lparr>ptr = 1, len = 6, cap = 7\<rparr>)
           = drop 4 (bytes_of [8, 9, 9, 9, 9, 5, 6, 7] \<lparr>ptr = 1, len = 6, cap = 7\<rparr>))"
proof -
  have v: "valid_slice [8, 9, 9, 9, 9, 5, 6, 7] \<lparr>ptr = 1, len = 6, cap = 7\<rparr>"
    by (simp add: valid_slice_def)
  have l: "4 \<le> len \<lparr>ptr = 1, len = 6, cap = 7\<rparr>"
    by simp
  from setSessionID_frame [OF v l, of 1] v l show ?thesis
    by blast
qed

text \<open>
  Claim C10. The header is little-endian: \<^verbatim>\<open>idToBytes\<close> puts the least significant byte
  first, so that the id is byte 0 plus 256 times byte 1 plus 65536 times byte 2 plus
  16777216 times byte 3, and \<^verbatim>\<open>idToBytes(1)\<close> is \<open>[1, 0, 0, 0]\<close>; \<^verbatim>\<open>getSessionID\<close> reads
  the first four bytes of a message by the same weights.
\<close>

theorem sessionID_little_endian:
  assumes "valid_slice h msg" and "bytes_of h msg = [b0, b1, b2, b3] @ rest"
  shows "(\<exists>h' b. idToBytes h0 sid = Inr (h', b) \<and>
            bytes_of h' b = [ucast sid, ucast (drop_bit 8 sid), ucast (drop_bit 16 sid),
                             ucast (drop_bit 24 sid)] \<and>
            unat sid = unat (bytes_of h' b ! 0) + 256 * unat (bytes_of h' b ! 1)
                        + 65536 * unat (bytes_of h' b ! 2) + 16777216 * unat (bytes_of h' b ! 3)) \<and>
         (\<exists>h' b. idToBytes h0 1 = Inr (h', b) \<and> bytes_of h' b = [1, 0, 0, 0]) \<and>
         (\<exists>w. getSessionID h msg = Inr w \<and>
              unat w = unat b0 + 256 * unat b1 + 65536 * unat b2 + 16777216 * unat b3)"
proof -
  have 1: "\<exists>h' b. idToBytes h0 sid = Inr (h', b) \<and>
            bytes_of h' b = [ucast sid, ucast (drop_bit 8 sid), ucast (drop_bit 16 sid),
                             ucast (drop_bit 24 sid)] \<and>
            unat sid = unat (bytes_of h' b ! 0) + 256 * unat (bytes_of h' b ! 1)
                        + 65536 * unat (bytes_of h' b ! 2) + 16777216 * unat (bytes_of h' b ! 3)"
    using unat_le_bytes [of sid] by (simp add: idToBytes_ok bytes_of_def)
  have 2: "\<exists>h' b. idToBytes h0 1 = Inr (h', b) \<and> bytes_of h' b = [1, 0, 0, 0]"
    by (simp add: idToBytes_ok bytes_of_def)
  have l: "len msg = 4 + length rest"
    using assms len_bytes_of [of h msg] by simp
  then have c: "4 \<le> cap msg"
    using assms(1) by (simp add: valid_slice_def)
  have "bytes_of h msg ! i = h ! (ptr msg + i)" if "i < 4" for i
    using that l assms(1) by (simp add: bytes_of_def valid_slice_def)
  from this [of 0] this [of 1] this [of 2] this [of 3]
  have "h ! ptr msg = b0" "h ! (ptr msg + 1) = b1" "h ! (ptr msg + 2) = b2" "h ! (ptr msg + 3) = b3"
    by (simp_all add: assms(2))
  then have 3: "\<exists>w. getSessionID h msg = Inr w \<and>
              unat w = unat b0 + 256 * unat b1 + 65536 * unat b2 + 16777216 * unat b3"
    using c by (simp add: getSessionID_ok le_word_of_bytes)
  from 1 2 3 show ?thesis by blast
qed

theorem sessionID_little_endian_witness:
  "valid_slice [1, 2, 0, 0, 7] \<lparr>ptr = 0, len = 5, cap = 5\<rparr> \<and>
   bytes_of [1, 2, 0, 0, 7] \<lparr>ptr = 0, len = 5, cap = 5\<rparr> = [1, 2, 0, 0] @ [7] \<and>
   (\<exists>h' b. idToBytes [] 1 = Inr (h', b) \<and> bytes_of h' b = [1, 0, 0, 0]) \<and>
   (\<exists>w. getSessionID [1, 2, 0, 0, 7] \<lparr>ptr = 0, len = 5, cap = 5\<rparr> = Inr w \<and> unat w = 513)"
proof -
  have v: "valid_slice [1, 2, 0, 0, 7] \<lparr>ptr = 0, len = 5, cap = 5\<rparr>"
    by (simp add: valid_slice_def)
  have b: "bytes_of [1, 2, 0, 0, 7] \<lparr>ptr = 0, len = 5, cap = 5\<rparr> = [1, 2, 0, 0] @ [7]"
    by (simp add: bytes_of_def)
  from sessionID_little_endian [OF v b, of "[]" 1] v b show ?thesis
    by simp
qed

section \<open>The address conversion and the entry point\<close>

text \<open>
  Claim C4. \<^verbatim>\<open>udpAddresses\<close> rejects every five-tuple whose protocol is not UDP: it
  returns an error and two nil addresses. When the protocol is UDP and both textual
  addresses resolve, it returns the two addresses the resolver gave and no error.
\<close>

theorem udpAddresses_protocol_gate:
  "(Proto t \<noteq> UDP \<longrightarrow>
      (\<exists>e. udpAddresses ResolveUDPAddr UDP (Some t) = Inr (None, None, Some e))) \<and>
   (Proto t = UDP \<and> ResolveUDPAddr ''udp'' (Local t) = (l, None) \<and>
    ResolveUDPAddr ''udp'' (Remote t) = (r, None) \<longrightarrow>
      udpAddresses ResolveUDPAddr UDP (Some t) = Inr (l, r, None))"
  by (simp add: udpAddresses_def)

theorem udpAddresses_protocol_gate_witness:
  "(Proto \<lparr>Local = ''10.0.0.1:5000'', Remote = ''10.0.0.2:6000'', Proto = ''tcp''\<rparr> \<noteq> ''udp'' \<and>
    (\<exists>e. udpAddresses (\<lambda>net a. (Some a, None :: unit option)) ''udp''
            (Some \<lparr>Local = ''10.0.0.1:5000'', Remote = ''10.0.0.2:6000'', Proto = ''tcp''\<rparr>)
          = Inr (None, None, Some e))) \<and>
   (Proto \<lparr>Local = ''10.0.0.1:5000'', Remote = ''10.0.0.2:6000'', Proto = ''udp''\<rparr> = ''udp'' \<and>
    udpAddresses (\<lambda>net a. (Some a, None :: unit option)) ''udp''
        (Some \<lparr>Local = ''10.0.0.1:5000'', Remote = ''10.0.0.2:6000'', Proto = ''udp''\<rparr>)
      = Inr (Some ''10.0.0.1:5000'', Some ''10.0.0.2:6000'', None))"
  using udpAddresses_protocol_gate
      [of "\<lparr>Local = ''10.0.0.1:5000'', Remote = ''10.0.0.2:6000'', Proto = ''tcp''\<rparr>" "''udp''"
          "\<lambda>net a. (Some a, None :: unit option)"]
    udpAddresses_protocol_gate
      [of "\<lparr>Local = ''10.0.0.1:5000'', Remote = ''10.0.0.2:6000'', Proto = ''udp''\<rparr>" "''udp''"
          "\<lambda>net a. (Some a, None :: unit option)" "Some ''10.0.0.1:5000''" "Some ''10.0.0.2:6000''"]
  by simp

text \<open>
  Claim C7. \<^verbatim>\<open>main\<close> dials the relay unless the usage was asked for. If the dial fails,
  or the dial succeeds and \<^verbatim>\<open>waddell.Connect\<close> fails, the process ends in
  \<^verbatim>\<open>log.Fatalf\<close>. And whenever \<^verbatim>\<open>main\<close> reaches \<^verbatim>\<open>runServer\<close> or \<^verbatim>\<open>runClient\<close>, the dial
  and the handshake have both succeeded and \<^verbatim>\<open>wc\<close> is the client the handshake returned.
\<close>

theorem relay_failure_is_fatal:
  "(\<not> help fl \<and>
    (snd (dial ''tcp'' (waddellAddr fl)) \<noteq> None \<or>
     snd (connect (fst (dial ''tcp'' (waddellAddr fl)))) \<noteq> None)
      \<longrightarrow> (\<exists>m. main dial connect fl = Fatal m)) \<and>
   (main dial connect fl = RunServer g \<or> main dial connect fl = RunClient g
      \<longrightarrow> (\<exists>conn. dial ''tcp'' (waddellAddr fl) = (conn, None) \<and> connect conn = (wc g, None)))"
  by (auto simp: main_def connectToWaddell_def Let_def split: prod.splits if_splits)

theorem relay_failure_is_fatal_witness:
  "(\<not> help default_flags \<and>
    snd ((\<lambda>net a. (0 :: nat, Some ''refused'')) ''tcp'' (waddellAddr default_flags)) \<noteq> None \<and>
    main (\<lambda>net a. (0 :: nat, Some ''refused'')) (\<lambda>c. (Suc c, None)) default_flags
      = Fatal ''Unable to dial waddell'') \<and>
   (\<not> help default_flags \<and>
    snd ((\<lambda>c. (Suc c, Some ''bad handshake''))
           (fst ((\<lambda>net a. (0 :: nat, None)) ''tcp'' (waddellAddr default_flags)))) \<noteq> None \<and>
    main (\<lambda>net a. (0 :: nat, None)) (\<lambda>c. (Suc c, Some ''bad handshake'')) default_flags
      = Fatal ''Unable to connect to waddell'') \<and>
   (main (\<lambda>net a. (0 :: nat, None :: string option)) (\<lambda>c. (Suc c, None)) default_flags
      = RunClient \<lparr>wc = Suc 0, debugOut = None\<rparr> \<and>
    (\<exists>conn. (\<lambda>net a. (0 :: nat, None :: string option)) ''tcp'' (waddellAddr default_flags)
               = (conn, None) \<and>
            (\<lambda>c. (Suc c, None :: string option)) conn
               = (wc \<lparr>wc = Suc 0, debugOut = None\<rparr>, None)))"
  using relay_failure_is_fatal
      [of default_flags "\<lambda>net a. (0 :: nat, Some ''refused'')" "\<lambda>c. (Suc c, None)"]
    relay_failure_is_fatal
      [of default_flags "\<lambda>net a. (0 :: nat, None)" "\<lambda>c. (Suc c, Some ''bad handshake'')"]
    relay_failure_is_fatal
      [of default_flags "\<lambda>net a. (0 :: nat, None :: string option)" "\<lambda>c. (Suc c, None)"
          "\<lparr>wc = Suc 0, debugOut = None\<rparr>"]
  by (simp add: default_flags_def main_def connectToWaddell_def)

text \<open>
  Claim C8. The role is chosen by comparing the mode flag with the string "server":
  whenever \<^verbatim>\<open>main\<close> runs the server the flag is exactly that string, whenever it runs
  the client the flag is any other string, and once the relay is connected (and the
  usage was not asked for) it runs the server for "server" and the client for
  everything else, the default "client" included.
\<close>

theorem mode_selects_role:
  "(main dial connect fl = RunServer g \<longrightarrow> mode fl = ''server'') \<and>
   (main dial connect fl = RunClient g \<longrightarrow> mode fl \<noteq> ''server'') \<and>
   (\<not> help fl \<and> dial ''tcp'' (waddellAddr fl) = (conn, None) \<and> connect conn = (c, None) \<longrightarrow>
      main dial connect fl =
        (if mode fl = ''server''
         then RunServer \<lparr>wc = c, debugOut = if debug fl then Some Stderr else None\<rparr>
         else RunClient \<lparr>wc = c, debugOut = if debug fl then Some Stderr else None\<rparr>))"
  by (auto simp: main_def connectToWaddell_def Let_def split: prod.splits if_splits sum.splits)

theorem mode_selects_role_witness:
  "main (\<lambda>net a. (0 :: nat, None :: string option)) (\<lambda>c. (Suc c, None))
       (default_flags\<lparr>mode := ''server''\<rparr>)
     = RunServer \<lparr>wc = Suc 0, debugOut = None\<rparr> \<and>
   mode default_flags = ''client'' \<and>
   main (\<lambda>net a. (0 :: nat, None :: string option)) (\<lambda>c. (Suc c, None)) default_flags
     = RunClient \<lparr>wc = Suc 0, debugOut = None\<rparr> \<and>
   main (\<lambda>net a. (0 :: nat, None :: string option)) (\<lambda>c. (Suc c, None))
       (default_flags\<lparr>mode := ''Server''\<rparr>)
     = RunClient \<lparr>wc = Suc 0, debugOut = None\<rparr>"
  using mode_selects_role
      [of "\<lambda>net a. (0 :: nat, None :: string option)" "\<lambda>c. (Suc c, None)"
          "default_flags\<lparr>mode := ''server''\<rparr>" _ 0 "Suc 0"]
    mode_selects_role
      [of "\<lambda>net a. (0 :: nat, None :: string option)" "\<lambda>c. (Suc c, None)"
          default_flags _ 0 "Suc 0"]
    mode_selects_role
      [of "\<lambda>net a. (0 :: nat, None :: string option)" "\<lambda>c. (Suc c, None)"
          "default_flags\<lparr>mode := ''Server''\<rparr>" _ 0 "Suc 0"]
  by (simp add: default_flags_def)

section \<open>The resolved five-tuple of a Session\<close>







section \<open>A timed-out resolve and the Session afterwards\<close>

lemma produceNext_keeps:
  "closed (snd (produceNext eng s)) = closed s \<and> resolved (snd (produceNext eng s)) = resolved s"
  by (simp add: produceNext_def split: prod.splits)

lemma consume_keeps:
  "closed (consume eng p s) = closed s \<and> resolved (consume eng p s) = resolved s"
  by (simp add: consume_def)

lemma resolveWithTimeout_open:
  "closed (snd (resolveWithTimeout eng d s)) = closed s"
  by (simp add: resolveWithTimeout_def split: option.splits resolution.splits)

lemma resolve_open:
  "resolve eng s = Some (r, s') \<Longrightarrow> closed s' = closed s"
  by (auto simp: resolve_def split: if_splits option.splits resolution.splits)


lemma apply_message_op_keeps:
  "is_message_op x \<Longrightarrow>
   closed (apply_session_op eng x s) = closed s \<and> resolved (apply_session_op eng x s) = resolved s"
  by (cases x) (simp_all add: produceNext_keeps consume_keeps)

lemma run_message_ops_keep:
  "list_all is_message_op xs \<Longrightarrow>
   closed (run_session eng xs s) = closed s \<and> resolved (run_session eng xs s) = resolved s"
  by (induction xs arbitrary: s) (simp_all add: apply_message_op_keeps)

lemma apply_session_op_open:
  "x \<noteq> Close \<Longrightarrow> closed (apply_session_op eng x s) = closed s"
proof (cases x)
  case Resolve
  then show ?thesis
    by (cases "resolve eng s") (auto dest: resolve_open)
qed (simp_all add: produceNext_keeps consume_keeps resolveWithTimeout_open)

lemma run_session_open:
  "Close \<notin> set xs \<Longrightarrow> closed (run_session eng xs s) = closed s"
  by (induction xs arbitrary: s) (simp_all add: apply_session_op_open [OF not_sym])

lemma resolveWithTimeout_pending:
  "\<not> closed s \<Longrightarrow> resolved s = None \<Longrightarrow> awaitResolution eng (Some d) (engine s) = Pending \<Longrightarrow>
   resolveWithTimeout eng d s = (Inl TimeoutError, s)"
  by (simp add: resolveWithTimeout_def)

lemma resolve_open_resolved:
  assumes "\<not> closed s" and "awaitResolution eng None (engine s) = Resolved ft"
  shows "\<exists>ft'. resolve eng s = Some (Inr ft', s\<lparr>resolved := Some ft'\<rparr>) \<and>
               (resolved s = None \<longrightarrow> ft' = ft)"
  using assms by (cases "resolved s") (simp_all add: resolve_def)


text \<open>
  Claim C6. On a Session that is open and has not resolved, a bounded resolve whose
  deadline passes with the engine still pending (as it is before any message has been
  exchanged) returns TimeoutError and leaves the Session exactly as it was. The Session
  stays usable: after the timed-out call and any further exchange of messages, once the
  engine has resolved, the unbounded resolve returns the engine's five-tuple and stores
  it; and after any further calls that do not close the Session, once the engine has
  resolved, the unbounded resolve returns a five-tuple.
\<close>

theorem timeout_keeps_session_usable:
  assumes "\<not> closed s" and "resolved s = None"
    and "awaitResolution eng (Some d) (engine s) = Pending"
  shows "resolveWithTimeout eng d s = (Inl TimeoutError, s) \<and>
         (\<forall>xs ft. list_all is_message_op xs \<and>
                  awaitResolution eng None
                    (engine (run_session eng (ResolveWithTimeout d # xs) s)) = Resolved ft
            \<longrightarrow> resolve eng (run_session eng (ResolveWithTimeout d # xs) s)
                  = Some (Inr ft,
                      (run_session eng (ResolveWithTimeout d # xs) s)\<lparr>resolved := Some ft\<rparr>)) \<and>
         (\<forall>xs ft. Close \<notin> set xs \<and>
                  awaitResolution eng None
                    (engine (run_session eng (ResolveWithTimeout d # xs) s)) = Resolved ft
            \<longrightarrow> (\<exists>ft'. resolve eng (run_session eng (ResolveWithTimeout d # xs) s)
                  = Some (Inr ft',
                      (run_session eng (ResolveWithTimeout d # xs) s)\<lparr>resolved := Some ft'\<rparr>)))"
proof (intro conjI allI impI)
  show t: "resolveWithTimeout eng d s = (Inl TimeoutError, s)"
    using assms by (rule resolveWithTimeout_pending)
  have r: "run_session eng (ResolveWithTimeout d # xs) s = run_session eng xs s" for xs
    by (simp add: t)
  fix xs ft
  {
    assume h: "list_all is_message_op xs \<and>
      awaitResolution eng None
        (engine (run_session eng (ResolveWithTimeout d # xs) s)) = Resolved ft"
    have k: "\<not> closed (run_session eng xs s)" "resolved (run_session eng xs s) = None"
      using run_message_ops_keep [of xs eng s] h assms(1,2) by simp_all
    from resolve_open_resolved [OF k(1), of eng ft] h k(2)
    show "resolve eng (run_session eng (ResolveWithTimeout d # xs) s)
            = Some (Inr ft, (run_session eng (ResolveWithTimeout d # xs) s)\<lparr>resolved := Some ft\<rparr>)"
      unfolding r by auto
  }
  {
    assume h: "Close \<notin> set xs \<and>
      awaitResolution eng None
        (engine (run_session eng (ResolveWithTimeout d # xs) s)) = Resolved ft"
    have k: "\<not> closed (run_session eng xs s)"
      using run_session_open [of xs eng s] h assms(1) by simp
    from resolve_open_resolved [OF k, of eng ft] h
    show "\<exists>ft'. resolve eng (run_session eng (ResolveWithTimeout d # xs) s)
            = Some (Inr ft', (run_session eng (ResolveWithTimeout d # xs) s)\<lparr>resolved := Some ft'\<rparr>)"
      unfolding r by blast
  }
qed

theorem timeout_keeps_session_usable_witness:
  "\<not> closed \<lparr>role = Initiator, engine = 0 :: nat, outboundExhausted = False, resolved = None,
              closed = False\<rparr> \<and>
   resolved \<lparr>role = Initiator, engine = 0 :: nat, outboundExhausted = False, resolved = None,
             closed = False\<rparr> = None \<and>
   awaitResolution counting_engine (Some 0) 0 = Pending \<and>
   resolveWithTimeout counting_engine 0
       \<lparr>role = Initiator, engine = 0, outboundExhausted = False, resolved = None, closed = False\<rparr>
     = (Inl TimeoutError,
        \<lparr>role = Initiator, engine = 0, outboundExhausted = False, resolved = None,
         closed = False\<rparr>) \<and>
   list_all is_message_op [ProduceNext, Consume ''answer''] \<and>
   run_session counting_engine [ResolveWithTimeout 0, ProduceNext, Consume ''answer'']
       \<lparr>role = Initiator, engine = 0, outboundExhausted = False, resolved = None, closed = False\<rparr>
     = \<lparr>role = Initiator, engine = 1, outboundExhausted = False, resolved = None, closed = False\<rparr> \<and>
   awaitResolution counting_engine None 1
     = Resolved \<lparr>Local = ''10.0.0.1:5000'', Remote = ''10.0.0.2:6000'', Proto = ''udp''\<rparr> \<and>
   resolve counting_engine
       \<lparr>role = Initiator, engine = 1, outboundExhausted = False, resolved = None, closed = False\<rparr>
     = Some (Inr \<lparr>Local = ''10.0.0.1:5000'', Remote = ''10.0.0.2:6000'', Proto = ''udp''\<rparr>,
         \<lparr>role = Initiator, engine = 1, outboundExhausted = False,
          resolved = Some \<lparr>Local = ''10.0.0.1:5000'', Remote = ''10.0.0.2:6000'', Proto = ''udp''\<rparr>,
          closed = False\<rparr>)"
proof -
  let ?s = "\<lparr>role = Initiator, engine = 0 :: nat, outboundExhausted = False, resolved = None,
             closed = False\<rparr>"
  let ?ft = "\<lparr>Local = ''10.0.0.1:5000'', Remote = ''10.0.0.2:6000'', Proto = ''udp''\<rparr>"
  have a: "\<not> closed ?s" and b: "resolved ?s = None"
    by simp_all
  have c: "awaitResolution counting_engine (Some 0) (engine ?s) = Pending"
    by (simp add: counting_engine_def)
  have m: "list_all is_message_op [ProduceNext, Consume ''answer'']"
    by simp
  have r: "run_session counting_engine (ResolveWithTimeout 0 # [ProduceNext, Consume ''answer'']) ?s
             = \<lparr>role = Initiator, engine = 1, outboundExhausted = False, resolved = None,
                closed = False\<rparr>"
    by (simp add: resolveWithTimeout_def produceNext_def consume_def counting_engine_def)
  have e: "awaitResolution counting_engine None 1 = Resolved ?ft"
    by (simp add: counting_engine_def)
  note T = timeout_keeps_session_usable [OF a b c]
  have 1: "resolveWithTimeout counting_engine 0 ?s = (Inl TimeoutError, ?s)"
    by (rule T [THEN conjunct1])
  have 2: "resolve counting_engine
       \<lparr>role = Initiator, engine = 1, outboundExhausted = False, resolved = None, closed = False\<rparr>
     = Some (Inr ?ft,
         \<lparr>role = Initiator, engine = 1, outboundExhausted = False, resolved = Some ?ft,
          closed = False\<rparr>)"
    using T [THEN conjunct2, THEN conjunct1, rule_format,
        of "[ProduceNext, Consume ''answer'']" ?ft] m e
    unfolding r by simp
  show ?thesis
    using a b c 1 m r e 2 by simp
qed

end
